theory Spec2Isabelle
  imports Main "HOL-Library.Sublist"
begin

section \<open>getoptmm: options\<close>

text \<open>
  The embedding follows \<^verbatim>\<open>src/getoptmm.hpp\<close> for the instantiation
  \<^verbatim>\<open>String = std::string\<close> (\<^verbatim>\<open>option\<close>, \<^verbatim>\<open>parser\<close>): a string is a list of
  \<^typ>\<open>char\<close>, a \<^verbatim>\<open>std::vector\<close> is a list, an iterator into a vector is the index it
  points at and the past-the-end iterator is the length of the list.
\<close>

datatype arg_type = arg_none | arg_optional | arg_required

datatype match_type = match_none | match_exact | match_partial

text \<open>
  \<^verbatim>\<open>basic_parse_error\<close> carries its message. A failed \<^verbatim>\<open>assert\<close> is kept as a second
  way of not returning.
\<close>

datatype error = parse_error string | assertion_failure

text \<open>
  The handlers belong to the host program. What a handler does to the host's variables is
  not modelled; a call of a handler is recorded as an event, and the handler itself is
  represented by what it throws on a given argument (\<open>None\<close>: it returns). The argument of
  \<^verbatim>\<open>m_handler\<close> is a pointer to a string, \<open>None\<close> standing for \<^verbatim>\<open>nullptr\<close>.
\<close>

record basic_option =
  m_short_names :: "char list"
  m_long_names :: "string list"
  m_arg_type :: arg_type
  m_handler :: "string option \<Rightarrow> error option"
  m_arg_name :: string
  m_description :: string

text \<open>The three constructors, with the wrappers they put around the host's handler.\<close>

definition basic_option_no_arg ::
  "char list \<Rightarrow> string list \<Rightarrow> error option \<Rightarrow> string \<Rightarrow> basic_option" where
  "basic_option_no_arg short_names long_names h description =
     \<lparr>m_short_names = short_names, m_long_names = long_names, m_arg_type = arg_none,
      m_handler = (\<lambda>a. h), m_arg_name = [], m_description = description\<rparr>"

definition basic_option_optional_arg ::
  "char list \<Rightarrow> string list \<Rightarrow> (string option \<Rightarrow> error option) \<Rightarrow> string \<Rightarrow> string
     \<Rightarrow> basic_option" where
  "basic_option_optional_arg short_names long_names h arg_name description =
     \<lparr>m_short_names = short_names, m_long_names = long_names, m_arg_type = arg_optional,
      m_handler = (\<lambda>a. case a of Some v \<Rightarrow> h (Some v) | None \<Rightarrow> h None),
      m_arg_name = arg_name, m_description = description\<rparr>"

definition basic_option_required_arg ::
  "char list \<Rightarrow> string list \<Rightarrow> (string \<Rightarrow> error option) \<Rightarrow> string \<Rightarrow> string
     \<Rightarrow> basic_option" where
  "basic_option_required_arg short_names long_names h arg_name description =
     \<lparr>m_short_names = short_names, m_long_names = long_names, m_arg_type = arg_required,
      m_handler = (\<lambda>a. case a of None \<Rightarrow> Some assertion_failure | Some v \<Rightarrow> h v),
      m_arg_name = arg_name, m_description = description\<rparr>"

subsection \<open>Matching\<close>

text \<open>\<^verbatim>\<open>match(char_type c)\<close>: the loop over \<^verbatim>\<open>m_short_names\<close>.\<close>

fun match_short_loop :: "char list \<Rightarrow> char \<Rightarrow> match_type" where
  "match_short_loop [] c = match_none"
| "match_short_loop (name # names) c =
     (if name = c then match_exact else match_short_loop names c)"

definition match_short :: "basic_option \<Rightarrow> char \<Rightarrow> match_type" where
  "match_short opt c = match_short_loop (m_short_names opt) c"

text \<open>
  \<^verbatim>\<open>std::mismatch(first1, last1, first2).first\<close>, as the index into the first range where
  the two ranges first differ (the length of the first range when they do not). The
  source calls it only when the second range is the longer one.
\<close>

fun mismatch :: "'a list \<Rightarrow> 'a list \<Rightarrow> nat" where
  "mismatch (x # xs) (y # ys) = (if x = y then Suc (mismatch xs ys) else 0)"
| "mismatch [] ys = 0"
| "mismatch (x # xs) [] = 0"

text \<open>
  \<^verbatim>\<open>match(string_type const &s)\<close>: the loop over \<^verbatim>\<open>m_long_names\<close>, with the local
  \<^verbatim>\<open>ret\<close> as an accumulator.
\<close>

fun match_long_loop :: "string list \<Rightarrow> string \<Rightarrow> match_type \<Rightarrow> match_type" where
  "match_long_loop [] s ret = ret"
| "match_long_loop (name # names) s ret =
     (if name = s then match_exact
      else if length s < length name \<and> mismatch s name = length s
           then match_long_loop names s match_partial
      else match_long_loop names s ret)"

definition match_long :: "basic_option \<Rightarrow> string \<Rightarrow> match_type" where
  "match_long opt s = match_long_loop (m_long_names opt) s match_none"

subsection \<open>Executing\<close>

text \<open>
  An event is one call of a handler: of the handler of the option at an index of
  \<^verbatim>\<open>m_options\<close>, of the non-option handler, or of the unrecognized-option handler.
  A result is the calls made, in order, and the exception that ended them, if any.
\<close>

datatype event =
    call_handler nat "string option"
  | call_non_option string
  | call_unrec_option string

type_synonym result = "event list \<times> error option"

definition call :: "event \<Rightarrow> error option \<Rightarrow> result" where
  "call ev thrown = ([ev], thrown)"

definition throw :: "error \<Rightarrow> result" where
  "throw e = ([], Some e)"

text \<open>\<open>seq r k\<close>: first \<open>r\<close>, then \<open>k\<close> unless \<open>r\<close> ended with an exception.\<close>

definition seq :: "result \<Rightarrow> result \<Rightarrow> result" where
  "seq r k = (case snd r of None \<Rightarrow> (fst r @ fst k, snd k) | Some e \<Rightarrow> r)"

text \<open>\<^verbatim>\<open>execute()\<close> and \<^verbatim>\<open>execute(arg)\<close> of the option at index \<open>i\<close>.\<close>

definition execute0 :: "nat \<Rightarrow> basic_option \<Rightarrow> result" where
  "execute0 i opt =
     (if m_arg_type opt = arg_required then throw assertion_failure
      else call (call_handler i None) (m_handler opt None))"

definition execute1 :: "nat \<Rightarrow> basic_option \<Rightarrow> string \<Rightarrow> result" where
  "execute1 i opt arg =
     (if m_arg_type opt = arg_none then throw assertion_failure
      else call (call_handler i (Some arg)) (m_handler opt (Some arg)))"

section \<open>The parser\<close>

datatype parse_flag = parse_flag_none | posixly_correct

record basic_parser =
  m_options :: "basic_option list"
  m_non_option_handler :: "string \<Rightarrow> error option"
  m_unrec_option_handler :: "string \<Rightarrow> error option"
  m_flag :: parse_flag

text \<open>
  The constructor without an unrecognized-option handler installs one that throws, the
  constructor with one stores it.
\<close>

definition default_unrec_option_handler :: "string \<Rightarrow> error option" where
  "default_unrec_option_handler a = Some (parse_error (''unrecognized option: '' @ a))"

definition basic_parser3 ::
  "basic_option list \<Rightarrow> (string \<Rightarrow> error option) \<Rightarrow> parse_flag \<Rightarrow> basic_parser" where
  "basic_parser3 opts non_option_handler flag =
     \<lparr>m_options = opts, m_non_option_handler = non_option_handler,
      m_unrec_option_handler = default_unrec_option_handler, m_flag = flag\<rparr>"

definition basic_parser4 ::
  "basic_option list \<Rightarrow> (string \<Rightarrow> error option) \<Rightarrow> (string \<Rightarrow> error option) \<Rightarrow> parse_flag
     \<Rightarrow> basic_parser" where
  "basic_parser4 opts non_option_handler unrec_option_handler flag =
     \<lparr>m_options = opts, m_non_option_handler = non_option_handler,
      m_unrec_option_handler = unrec_option_handler, m_flag = flag\<rparr>"

subsection \<open>The two regular expressions of \<^verbatim>\<open>run\<close>\<close>

text \<open>
  \<^verbatim>\<open>std::basic_regex\<close> is built with its default grammar, ECMAScript, in which \<^verbatim>\<open>.\<close>
  matches every character except the line terminators; for \<^verbatim>\<open>char\<close> these are line feed
  and carriage return. \<^verbatim>\<open>[^=]\<close> matches every character except \<^verbatim>\<open>=\<close>, line terminators
  included. \<^verbatim>\<open>std::regex_match\<close> succeeds only when the whole token is matched.
\<close>

definition line_terminator :: "char \<Rightarrow> bool" where
  "line_terminator c = (c = CHR 0x0A \<or> c = CHR 0x0D)"

definition any_char :: "char \<Rightarrow> bool" where
  "any_char c = (\<not> line_terminator c)"

text \<open>
  \<^verbatim>\<open>--([^=]*)(?:=(.*))?\<close>: the result is \<^verbatim>\<open>match.str(1)\<close> and, when \<^verbatim>\<open>match[2].matched\<close>,
  \<^verbatim>\<open>match[2]\<close>. Group 1 has to stop at the first \<^verbatim>\<open>=\<close> and cannot stop before it, so a
  token has at most one match.
\<close>

definition long_option_regex :: "string \<Rightarrow> (string \<times> string option) option" where
  "long_option_regex arg =
     (case arg of
        c1 # c2 # r \<Rightarrow>
          if c1 = CHR ''-'' \<and> c2 = CHR ''-'' then
            (case dropWhile (\<lambda>c. c \<noteq> CHR ''='') r of
               [] \<Rightarrow> Some (r, None)
             | e # v \<Rightarrow>
                 if list_all any_char v
                 then Some (takeWhile (\<lambda>c. c \<noteq> CHR ''='') r, Some v)
                 else None)
          else None
      | _ \<Rightarrow> None)"

text \<open>\<^verbatim>\<open>-(.+)\<close>: the result is \<^verbatim>\<open>match[1]\<close>.\<close>

definition short_option_regex :: "string \<Rightarrow> string option" where
  "short_option_regex arg =
     (case arg of
        c1 # c # cs \<Rightarrow>
          if c1 = CHR ''-'' \<and> list_all any_char (c # cs) then Some (c # cs) else None
      | _ \<Rightarrow> None)"

subsection \<open>Finding the option\<close>

text \<open>
  \<^verbatim>\<open>std::find_if(first, m_options.end(), pred)\<close> with \<open>first\<close> an index: \<open>find_pos\<close> is
  the search in a range, \<open>find_if\<close> puts the range back into the vector.
\<close>

fun find_pos :: "('a \<Rightarrow> bool) \<Rightarrow> 'a list \<Rightarrow> nat" where
  "find_pos pred [] = 0"
| "find_pos pred (x # xs) = (if pred x then 0 else Suc (find_pos pred xs))"

definition find_if :: "'a list \<Rightarrow> nat \<Rightarrow> ('a \<Rightarrow> bool) \<Rightarrow> nat" where
  "find_if xs first pred = first + find_pos pred (drop first xs)"

text \<open>
  What the search for the option of a token ends with: the unrecognized-option handler
  is to be called, \<^verbatim>\<open>ambiguous option\<close> is thrown, or \<^verbatim>\<open>optit\<close> points at the option.
\<close>

datatype selection = unrecognized | ambiguous | selected nat

text \<open>Lines 300 to 318 of \<^verbatim>\<open>run\<close>, for the name of a long option.\<close>

definition select_long :: "basic_option list \<Rightarrow> string \<Rightarrow> selection" where
  "select_long opts name =
     (let find_match = (\<lambda>optit n. find_if opts optit (\<lambda>opt. match_long opt name = n));
          optit = find_match 0 match_exact
      in if optit = length opts then
           (let optit = find_match 0 match_partial
            in if optit = length opts then unrecognized
               else if find_match (Suc optit) match_partial \<noteq> length opts then ambiguous
               else if find_match (Suc optit) match_exact \<noteq> length opts then ambiguous
               else selected optit)
         else if find_match (Suc optit) match_exact \<noteq> length opts then ambiguous
         else selected optit)"

text \<open>Lines 346 to 358 of \<^verbatim>\<open>run\<close>, for one character of a cluster.\<close>

definition select_short :: "basic_option list \<Rightarrow> char \<Rightarrow> selection" where
  "select_short opts name =
     (let find_match = (\<lambda>optit. find_if opts optit (\<lambda>opt. match_short opt name = match_exact));
          optit = find_match 0
      in if optit = length opts then unrecognized
         else if find_match (Suc optit) \<noteq> length opts then ambiguous
         else selected optit)"

subsection \<open>\<^verbatim>\<open>run\<close>\<close>

text \<open>The loops that hand every remaining token to the non-option handler.\<close>

fun non_options :: "basic_parser \<Rightarrow> string list \<Rightarrow> result" where
  "non_options p [] = ([], None)"
| "non_options p (a # rest) =
     seq (call (call_non_option a) (m_non_option_handler p a)) (non_options p rest)"

text \<open>
  \<open>run p args\<close> is the outer loop with \<^verbatim>\<open>it\<close> at the head of \<open>args\<close>;
  \<open>run_short p cs rest\<close> is the inner loop over a cluster with \<^verbatim>\<open>cit\<close> at the head of
  \<open>cs\<close> and \<open>rest\<close> the tokens after the current one. An exception ends both.
\<close>

function run :: "basic_parser \<Rightarrow> string list \<Rightarrow> result"
  and run_short :: "basic_parser \<Rightarrow> string \<Rightarrow> string list \<Rightarrow> result" where
  "run p [] = ([], None)"
| "run p (arg # rest) =
     (if arg = ''--'' then non_options p rest
      else case long_option_regex arg of
        Some (name, value) \<Rightarrow>
          (case select_long (m_options p) name of
             unrecognized \<Rightarrow>
               seq (call (call_unrec_option arg) (m_unrec_option_handler p arg)) (run p rest)
           | ambiguous \<Rightarrow> throw (parse_error (''ambiguous option: --'' @ name))
           | selected optit \<Rightarrow>
               (case m_arg_type (m_options p ! optit) of
                  arg_none \<Rightarrow>
                    (case value of
                       Some v \<Rightarrow> throw (parse_error (''argument not allowed: --'' @ name))
                     | None \<Rightarrow> seq (execute0 optit (m_options p ! optit)) (run p rest))
                | arg_optional \<Rightarrow>
                    (case value of
                       Some v \<Rightarrow> seq (execute1 optit (m_options p ! optit) v) (run p rest)
                     | None \<Rightarrow> seq (execute0 optit (m_options p ! optit)) (run p rest))
                | arg_required \<Rightarrow>
                    (case value of
                       Some v \<Rightarrow> seq (execute1 optit (m_options p ! optit) v) (run p rest)
                     | None \<Rightarrow>
                         (case rest of
                            [] \<Rightarrow> throw (parse_error (''argument required: --'' @ name))
                          | next # rest' \<Rightarrow>
                              seq (execute1 optit (m_options p ! optit) next) (run p rest')))))
      | None \<Rightarrow>
          (case short_option_regex arg of
             Some cs \<Rightarrow> run_short p cs rest
           | None \<Rightarrow>
               if m_flag p = posixly_correct then non_options p (arg # rest)
               else seq (call (call_non_option arg) (m_non_option_handler p arg)) (run p rest)))"
| "run_short p [] rest = run p rest"
| "run_short p (name # cs) rest =
     (case select_short (m_options p) name of
        unrecognized \<Rightarrow>
          seq (call (call_unrec_option (CHR ''-'' # name # cs))
                 (m_unrec_option_handler p (CHR ''-'' # name # cs)))
              (run_short p cs rest)
      | ambiguous \<Rightarrow> throw (parse_error (''ambiguous option: -'' @ [name]))
      | selected optit \<Rightarrow>
          (case m_arg_type (m_options p ! optit) of
             arg_none \<Rightarrow> seq (execute0 optit (m_options p ! optit)) (run_short p cs rest)
           | arg_optional \<Rightarrow>
               seq (if cs = [] then execute0 optit (m_options p ! optit)
                    else execute1 optit (m_options p ! optit) cs)
                   (run p rest)
           | arg_required \<Rightarrow>
               if cs = [] then
                 (case rest of
                    [] \<Rightarrow> throw (parse_error (''argument required: -'' @ [name]))
                  | next # rest' \<Rightarrow>
                      seq (execute1 optit (m_options p ! optit) next) (run p rest'))
               else seq (execute1 optit (m_options p ! optit) cs) (run p rest)))"
  by pat_completeness auto
termination
  by (relation "inv_image (less_than <*lex*> less_than) (\<lambda>x. case x of
          Inl (p, args) \<Rightarrow> (length args, 0)
        | Inr (p, cs, rest) \<Rightarrow> (length rest, Suc (length cs)))")
     auto

section \<open>The help text\<close>

text \<open>
  \<^verbatim>\<open>basic_option::get_help\<close>: the two loops with their \<^verbatim>\<open>first\<close> flags, then the
  array of the three fields as a triple.
\<close>

fun short_help :: "arg_type \<Rightarrow> string \<Rightarrow> bool \<Rightarrow> char list \<Rightarrow> string" where
  "short_help n arg_name first [] = []"
| "short_help n arg_name first (c # cs) =
     (if first then [] else '','') @ [CHR ''-'', c] @
     (case n of
        arg_optional \<Rightarrow> ''['' @ arg_name @ '']''
      | arg_required \<Rightarrow> '' '' @ arg_name
      | arg_none \<Rightarrow> []) @
     short_help n arg_name False cs"

fun long_help :: "arg_type \<Rightarrow> string \<Rightarrow> bool \<Rightarrow> string list \<Rightarrow> string" where
  "long_help n arg_name first [] = []"
| "long_help n arg_name first (s # ss) =
     (if first then [] else '','') @ ''--'' @ s @
     (case n of
        arg_optional \<Rightarrow> ''[='' @ arg_name @ '']''
      | arg_required \<Rightarrow> ''='' @ arg_name
      | arg_none \<Rightarrow> []) @
     long_help n arg_name False ss"

definition option_get_help :: "basic_option \<Rightarrow> string \<times> string \<times> string" where
  "option_get_help opt =
     (short_help (m_arg_type opt) (m_arg_name opt) True (m_short_names opt),
      long_help (m_arg_type opt) (m_arg_name opt) True (m_long_names opt),
      m_description opt)"

text \<open>
  The lines that the loop \<^verbatim>\<open>while (std::getline(desc, ln))\<close> reads: each call takes the
  characters up to the next line feed and discards the line feed; a call at the end of
  the stream reads nothing and ends the loop.
\<close>

function getlines :: "string \<Rightarrow> string list" where
  "getlines desc =
     (if desc = [] then []
      else takeWhile (\<lambda>c. c \<noteq> CHR 0x0A) desc #
           (case dropWhile (\<lambda>c. c \<noteq> CHR 0x0A) desc of
              [] \<Rightarrow> []
            | d # desc' \<Rightarrow> getlines desc'))"
  by pat_completeness auto
termination
proof (relation "measure length")
  show "wf (measure length)" by simp
next
  fix desc :: string and d desc'
  assume "dropWhile (\<lambda>c. c \<noteq> CHR 0x0A) desc = d # desc'"
  then have "length (d # desc') \<le> length desc"
    using length_dropWhile_le [of "\<lambda>c. c \<noteq> CHR 0x0A" desc] by simp
  then show "(desc', desc) \<in> measure length" by simp
qed

declare getlines.simps [simp del]

text \<open>
  \<^verbatim>\<open>ss << std::setw(w) << s\<close> on a stream set to \<^verbatim>\<open>std::left\<close>: the string, then spaces up
  to the width \<open>w\<close>; a longer string is written whole. The widths are \<^verbatim>\<open>int\<close> in the
  source and natural numbers here: a field of more than \<^verbatim>\<open>INT_MAX\<close> characters is left
  out of the model.
\<close>

definition setw_left :: "nat \<Rightarrow> string \<Rightarrow> string" where
  "setw_left w s = s @ replicate (w - length s) CHR '' ''"

text \<open>The loop over the lines of a description, with its \<^verbatim>\<open>fstln\<close> flag.\<close>

fun put_lines :: "nat \<Rightarrow> bool \<Rightarrow> string list \<Rightarrow> string" where
  "put_lines w fstln [] = []"
| "put_lines w fstln (ln # lns) =
     (if fstln then [] else CHR 0x0A # setw_left w []) @ ln @ put_lines w False lns"

text \<open>The loop over \<^verbatim>\<open>helps\<close>, with its \<^verbatim>\<open>fstopt\<close> flag.\<close>

fun put_helps :: "nat \<Rightarrow> nat \<Rightarrow> bool \<Rightarrow> (string \<times> string \<times> string) list \<Rightarrow> string" where
  "put_helps col0 col1 fstopt [] = []"
| "put_helps col0 col1 fstopt (help # helps) =
     (if fstopt then [] else [CHR 0x0A]) @
     setw_left col0 (fst help) @
     setw_left col1 (fst (snd help)) @
     put_lines (col0 + col1) True (getlines (snd (snd help))) @
     put_helps col0 col1 False helps"

text \<open>
  \<^verbatim>\<open>basic_parser::get_help\<close>. The first loop of the source collects \<^verbatim>\<open>helps\<close> and the
  two maxima in one pass; they are three separate passes here.
\<close>

definition get_help :: "basic_parser \<Rightarrow> string \<Rightarrow> string" where
  "get_help p header =
     (let helps = map option_get_help (m_options p);
          col0 = Suc (foldl (\<lambda>col help. max col (length (fst help))) 0 helps);
          col1 = Suc (foldl (\<lambda>col help. max col (length (fst (snd help)))) 0 helps)
      in header @ [CHR 0x0A] @ put_helps col0 col1 True helps)"

section \<open>Notions of the specification\<close>

text \<open>The number of options whose \<^verbatim>\<open>match\<close> answers \<open>n\<close> for a long name.\<close>

definition count_matches :: "basic_option list \<Rightarrow> string \<Rightarrow> match_type \<Rightarrow> nat" where
  "count_matches opts name n = length (filter (\<lambda>opt. match_long opt name = n) opts)"

text \<open>
  The matching of long names in the words of the specification: exact for a declared
  name, partial for a non-empty proper prefix of a declared name, none otherwise.
\<close>

definition match_long_spec :: "basic_option \<Rightarrow> string \<Rightarrow> match_type" where
  "match_long_spec opt name =
     (if name \<in> set (m_long_names opt) then match_exact
      else if name \<noteq> [] \<and> (\<exists>l \<in> set (m_long_names opt). strict_prefix name l)
           then match_partial
      else match_none)"

text \<open>Pieces joined by a separator.\<close>

fun join :: "'a list \<Rightarrow> 'a list list \<Rightarrow> 'a list" where
  "join sep [] = []"
| "join sep [x] = x"
| "join sep (x # y # xs) = x @ sep @ join sep (y # xs)"

text \<open>
  The layout of the help text in the words of the specification: the column widths are
  one more than the widest short field and the widest long field, a block is the two
  padded fields and the lines of the description, the later lines behind
  \<open>col0 + col1\<close> spaces, and the blocks are joined by \<open>sep\<close>.
\<close>

definition col_width :: "string list \<Rightarrow> nat" where
  "col_width strs = 1 + Max (set (0 # map length strs))"

definition pad :: "nat \<Rightarrow> string \<Rightarrow> string" where
  "pad w s = s @ replicate (w - length s) CHR '' ''"

definition help_block :: "nat \<Rightarrow> nat \<Rightarrow> string \<times> string \<times> string \<Rightarrow> string" where
  "help_block col0 col1 help =
     pad col0 (fst help) @ pad col1 (fst (snd help)) @
     join (CHR 0x0A # replicate (col0 + col1) CHR '' '') (getlines (snd (snd help)))"

definition help_col0 :: "basic_parser \<Rightarrow> nat" where
  "help_col0 p = col_width (map (\<lambda>opt. fst (option_get_help opt)) (m_options p))"

definition help_col1 :: "basic_parser \<Rightarrow> nat" where
  "help_col1 p = col_width (map (\<lambda>opt. fst (snd (option_get_help opt))) (m_options p))"

definition help_layout :: "string \<Rightarrow> basic_parser \<Rightarrow> string \<Rightarrow> string" where
  "help_layout sep p header =
     header @ [CHR 0x0A] @
     join sep (map (\<lambda>opt. help_block (help_col0 p) (help_col1 p) (option_get_help opt))
                 (m_options p))"

section \<open>Example configurations\<close>

text \<open>A handler that returns.\<close>

definition returns :: "'a \<Rightarrow> error option" where
  "returns a = None"

text \<open>The options of the example program \<^verbatim>\<open>ic\<close> and three parsers over them.\<close>

definition ic_opts :: "basic_option list" where
  "ic_opts =
     [basic_option_no_arg ''v'' [''verbose''] None ''chatty output on stderr'',
      basic_option_no_arg ''V?'' [''version''] None ''show version number'',
      basic_option_optional_arg ''o'' [''output''] returns ''FILE'' ''output FILE'',
      basic_option_optional_arg ''c'' [] returns ''FILE'' ''input FILE'',
      basic_option_required_arg ''L'' [''libdir''] returns ''DIR'' ''library directory'']"

definition ic_parser :: basic_parser where
  "ic_parser = basic_parser3 ic_opts returns parse_flag_none"

definition ic_parser_posix :: basic_parser where
  "ic_parser_posix = basic_parser3 ic_opts returns posixly_correct"

definition ic_parser_lenient :: basic_parser where
  "ic_parser_lenient = basic_parser4 ic_opts returns returns parse_flag_none"

text \<open>The same options and one more, whose long name is a prefix of \<^verbatim>\<open>libdir\<close>.\<close>

definition lib_parser :: basic_parser where
  "lib_parser =
     basic_parser3 (ic_opts @ [basic_option_no_arg [] [''lib''] None ''list libraries''])
       returns parse_flag_none"

text \<open>An option without argument for \<^verbatim>\<open>-a\<close> and one with a required argument for \<^verbatim>\<open>-b\<close>.\<close>

definition ab_parser :: basic_parser where
  "ab_parser =
     basic_parser3
       [basic_option_no_arg ''a'' [''all''] None ''all entries'',
        basic_option_required_arg ''b'' [''block''] returns ''SIZE'' ''block size'']
       returns parse_flag_none"

text \<open>Line feed.\<close>

definition LF :: char where
  "LF = CHR 0x0A"

text \<open>Two options of the example program \<^verbatim>\<open>simple-echo\<close>, one with a description of two lines.\<close>

definition echo_parser :: basic_parser where
  "echo_parser =
     basic_parser3
       [basic_option_no_arg ''h'' [''help''] None (''show help'' @ [LF] @ ''and exit''),
        basic_option_required_arg ''c'' [''count''] returns ''N'' ''show output N time(s)'']
       returns parse_flag_none"

section \<open>Lemmas\<close>

subsection \<open>Unfolding the examples\<close>

text \<open>Unfolding the examples, the searches and the regular expressions.\<close>

lemmas example_defs =
  ic_parser_def ic_parser_posix_def ic_parser_lenient_def lib_parser_def ab_parser_def
  echo_parser_def
  ic_opts_def basic_parser3_def basic_parser4_def default_unrec_option_handler_def
  basic_option_no_arg_def basic_option_optional_arg_def basic_option_required_arg_def
  returns_def LF_def

lemmas search_defs =
  select_long_def select_short_def find_if_def match_long_def match_short_def
  count_matches_def

lemmas regex_defs =
  long_option_regex_def short_option_regex_def any_char_def line_terminator_def

subsection \<open>Sequencing\<close>

lemma fst_seq_call [simp]: "seq (call ev t) k \<noteq> ([], e)"
  by (cases t) (auto simp: seq_def call_def)

lemma seq_call_end [simp]: "seq (call ev t) ([], None) = ([ev], t)"
  by (cases t) (auto simp: seq_def call_def)

lemma seq_call_returns: "seq (call ev None) k = (ev # fst k, snd k)"
  by (simp add: seq_def call_def)

lemma non_options_prefix: "prefix (fst (non_options p ts)) (map call_non_option ts)"
  by (induction ts) (auto simp: seq_def call_def split: option.splits)

lemma non_options_all:
  "\<forall>t\<in>set ts. m_non_option_handler p t = None \<Longrightarrow>
     non_options p ts = (map call_non_option ts, None)"
  by (induction ts) (auto simp: seq_def call_def)

lemma non_options_not_thrown: "non_options p ts \<noteq> ([], Some e)"
  by (cases ts) simp_all

subsection \<open>Matching\<close>

lemma mismatch_prefix:
  "length s \<le> length name \<Longrightarrow> (mismatch s name = length s) = prefix s name"
  by (induction s name rule: mismatch.induct) auto

lemma match_long_loop_eq:
  "match_long_loop names s ret =
     (if s \<in> set names then match_exact
      else if \<exists>name \<in> set names. strict_prefix s name then match_partial
      else ret)"
proof (induction names arbitrary: ret)
  case Nil
  then show ?case by simp
next
  case (Cons name names)
  have pre: "(length s < length name \<and> mismatch s name = length s) = strict_prefix s name"
    if "name \<noteq> s"
    using that mismatch_prefix [of s name]
    by (auto simp: strict_prefix_def dest: prefix_length_le prefix_length_less
        intro: prefix_length_less)
  show ?case
    using Cons.IH pre by (auto simp: strict_prefix_def)
qed

lemma match_short_loop_eq: "(match_short_loop names c = match_exact) = (c \<in> set names)"
  by (induction names) auto

lemma match_short_eq: "(match_short opt c = match_exact) = (c \<in> set (m_short_names opt))"
  by (simp add: match_short_def match_short_loop_eq)

subsection \<open>Searching\<close>

lemma find_pos_le: "find_pos P xs \<le> length xs"
  by (induction xs) auto

lemma find_pos_end: "(find_pos P xs = length xs) = (filter P xs = [])"
  using find_pos_le [of P] by (induction xs) (auto simp: le_Suc_eq)

lemma find_pos_holds: "find_pos P xs < length xs \<Longrightarrow> P (xs ! find_pos P xs)"
  by (induction xs) auto

lemma find_pos_next:
  "find_pos P xs < length xs \<Longrightarrow>
     (Suc (find_pos P xs) + find_pos P (drop (Suc (find_pos P xs)) xs) \<noteq> length xs)
       = (2 \<le> length (filter P xs))"
proof (induction xs)
  case Nil
  then show ?case by simp
next
  case (Cons x xs)
  show ?case
  proof (cases "P x")
    case True
    then show ?thesis
      using find_pos_end [of P xs] by (cases "filter P xs") auto
  next
    case False
    then show ?thesis using Cons by simp
  qed
qed

lemma find_pos_none_after:
  "filter P xs = [] \<Longrightarrow> k \<le> length xs \<Longrightarrow> k + find_pos P (drop k xs) = length xs"
proof -
  assume a: "filter P xs = []" and k: "k \<le> length xs"
  have "filter P (drop k xs) = []"
    using a by (auto simp: filter_empty_conv dest: in_set_dropD)
  then have "find_pos P (drop k xs) = length (drop k xs)"
    using find_pos_end [of P "drop k xs"] by blast
  then show ?thesis using k by simp
qed

lemma find_pos_unique:
  "i < length xs \<Longrightarrow> \<forall>k<length xs. P (xs ! k) = (k = i) \<Longrightarrow>
     find_pos P xs = i \<and> filter P xs = [xs ! i]"
proof (induction xs arbitrary: i)
  case Nil
  then show ?case by simp
next
  case (Cons x xs)
  show ?case
  proof (cases i)
    case 0
    have "\<not> P y" if "y \<in> set xs" for y
    proof -
      from that obtain k where "k < length xs" "xs ! k = y" by (auto simp: in_set_conv_nth)
      then show ?thesis using Cons.prems(2) 0 by (auto dest: spec [of _ "Suc k"])
    qed
    then have "filter P xs = []" by (simp add: filter_empty_conv)
    then show ?thesis using Cons.prems 0 by auto
  next
    case (Suc j)
    have nx: "\<not> P x" using Cons.prems(2) Suc by (auto dest: spec [of _ 0])
    have "\<forall>k<length xs. P (xs ! k) = (k = j)"
      using Cons.prems(2) Suc by (auto dest: spec [of _ "Suc k" for k])
    then have "find_pos P xs = j \<and> filter P xs = [xs ! j]"
      using Cons.IH [of j] Cons.prems(1) Suc by simp
    then show ?thesis using nx Suc by simp
  qed
qed

lemma select_long_cases:
  "select_long opts name =
     (let P = (\<lambda>n opt. match_long opt name = n) in
      if count_matches opts name match_exact = 0 then
        (if count_matches opts name match_partial = 0 then unrecognized
         else if 2 \<le> count_matches opts name match_partial then ambiguous
         else selected (find_pos (P match_partial) opts))
      else if 2 \<le> count_matches opts name match_exact then ambiguous
      else selected (find_pos (P match_exact) opts))"
proof -
  let ?E = "\<lambda>opt. match_long opt name = match_exact"
  let ?Q = "\<lambda>opt. match_long opt name = match_partial"
  have le: "\<And>P. find_pos P opts \<le> length opts" by (rule find_pos_le)
  show ?thesis
  proof (cases "filter ?E opts = []")
    case noex: True
    then have e: "find_pos ?E opts = length opts" by (simp add: find_pos_end)
    show ?thesis
    proof (cases "filter ?Q opts = []")
      case True
      then have "find_pos ?Q opts = length opts" by (simp add: find_pos_end)
      then show ?thesis using noex True e
        by (simp add: select_long_def find_if_def count_matches_def)
    next
      case False
      then have lt: "find_pos ?Q opts < length opts"
        using le [of ?Q] find_pos_end [of ?Q opts] by simp
      have after: "Suc (find_pos ?Q opts) + find_pos ?E (drop (Suc (find_pos ?Q opts)) opts)
                     = length opts"
        using find_pos_none_after [OF noex, of "Suc (find_pos ?Q opts)"] lt by simp
      show ?thesis
        using noex False e lt after find_pos_next [OF lt]
        by (simp add: select_long_def find_if_def count_matches_def Let_def)
    qed
  next
    case False
    then have lt: "find_pos ?E opts < length opts"
      using le [of ?E] find_pos_end [of ?E opts] by simp
    show ?thesis
      using False lt find_pos_next [OF lt]
      by (simp add: select_long_def find_if_def count_matches_def Let_def)
  qed
qed

lemma select_long_ambiguous:
  "(select_long opts name = ambiguous) =
     (2 \<le> count_matches opts name match_exact \<or>
      count_matches opts name match_exact = 0 \<and> 2 \<le> count_matches opts name match_partial)"
  by (auto simp: select_long_cases Let_def)

lemma select_long_exact:
  assumes "count_matches opts name match_exact = 1"
  shows "\<exists>i<length opts. select_long opts name = selected i \<and>
           match_long (opts ! i) name = match_exact"
proof -
  let ?E = "\<lambda>opt. match_long opt name = match_exact"
  have "filter ?E opts \<noteq> []" using assms by (auto simp: count_matches_def)
  then have lt: "find_pos ?E opts < length opts"
    using find_pos_le [of ?E opts] find_pos_end [of ?E opts] by simp
  have "select_long opts name = selected (find_pos ?E opts)"
    using assms by (simp add: select_long_cases)
  then show ?thesis using lt find_pos_holds [OF lt] by blast
qed

lemma select_long_selected:
  assumes "select_long opts name = selected i"
  shows "i < length opts \<and>
         (count_matches opts name match_exact = 1 \<and>
            match_long (opts ! i) name = match_exact \<or>
          count_matches opts name match_exact = 0 \<and>
            count_matches opts name match_partial = 1 \<and>
            match_long (opts ! i) name = match_partial)"
proof -
  have pos: "find_pos P opts < length opts \<and> P (opts ! find_pos P opts)"
    if "length (filter P opts) = 1" for P :: "basic_option \<Rightarrow> bool"
  proof -
    have "filter P opts \<noteq> []" using that by auto
    then have "find_pos P opts < length opts"
      using find_pos_le [of P opts] find_pos_end [of P opts] by simp
    then show ?thesis using find_pos_holds by blast
  qed
  show ?thesis
  proof (cases "count_matches opts name match_exact = 0")
    case True
    then have "count_matches opts name match_partial = 1 \<and>
        i = find_pos (\<lambda>opt. match_long opt name = match_partial) opts"
      using assms by (auto simp: select_long_cases Let_def split: if_splits)
    then show ?thesis
      using True pos [of "\<lambda>opt. match_long opt name = match_partial"]
      by (simp add: count_matches_def)
  next
    case False
    then have "count_matches opts name match_exact = 1 \<and>
        i = find_pos (\<lambda>opt. match_long opt name = match_exact) opts"
      using assms by (auto simp: select_long_cases Let_def split: if_splits)
    then show ?thesis
      using pos [of "\<lambda>opt. match_long opt name = match_exact"]
      by (simp add: count_matches_def)
  qed
qed

lemma select_short_unique:
  assumes "i < length opts"
    and "\<forall>k<length opts. (c \<in> set (m_short_names (opts ! k))) = (k = i)"
  shows "select_short opts c = selected i"
proof -
  let ?P = "\<lambda>opt. match_short opt c = match_exact"
  have u: "find_pos ?P opts = i \<and> filter ?P opts = [opts ! i]"
    using find_pos_unique [of i opts ?P] assms by (simp add: match_short_eq)
  then have lt: "find_pos ?P opts < length opts" using assms(1) by simp
  have "\<not> (Suc (find_pos ?P opts) + find_pos ?P (drop (Suc (find_pos ?P opts)) opts)
              \<noteq> length opts)"
    using find_pos_next [OF lt] u by simp
  then show ?thesis
    using u lt by (simp add: select_short_def find_if_def Let_def)
qed

lemma select_short_selected:
  assumes "select_short opts c = selected i"
  shows "i < length opts \<and> c \<in> set (m_short_names (opts ! i)) \<and>
         length (filter (\<lambda>opt. c \<in> set (m_short_names opt)) opts) = 1"
proof -
  let ?P = "\<lambda>opt. match_short opt c = match_exact"
  have le: "find_pos ?P opts \<le> length opts" by (rule find_pos_le)
  have ne: "find_pos ?P opts \<noteq> length opts" and i: "i = find_pos ?P opts"
    and nx: "Suc (find_pos ?P opts) + find_pos ?P (drop (Suc (find_pos ?P opts)) opts)
               = length opts"
    using assms by (auto simp: select_short_def find_if_def Let_def split: if_splits)
  have lt: "find_pos ?P opts < length opts" using le ne by simp
  have "\<not> 2 \<le> length (filter ?P opts)" using find_pos_next [OF lt] nx by simp
  moreover have "filter ?P opts \<noteq> []" using ne find_pos_end [of ?P opts] by simp
  ultimately have "length (filter ?P opts) = 1"
    by (cases "length (filter ?P opts)") auto
  then show ?thesis
    using lt i find_pos_holds [OF lt] by (simp add: match_short_eq)
qed

subsection \<open>The regular expressions\<close>

lemma long_not_dash:
  "long_option_regex arg = Some (name, Some v) \<Longrightarrow> arg \<noteq> ''--''"
  by (auto simp: long_option_regex_def)

lemma long_option_regex_unfold:
  "long_option_regex (CHR ''-'' # CHR ''-'' # r) =
     (case dropWhile (\<lambda>c. c \<noteq> CHR ''='') r of
        [] \<Rightarrow> Some (r, None)
      | e # v \<Rightarrow>
          if list_all any_char v
          then Some (takeWhile (\<lambda>c. c \<noteq> CHR ''='') r, Some v)
          else None)"
  unfolding long_option_regex_def by (simp only: list.case if_True simp_thms)

lemma long_option_regex_name_value:
  assumes "CHR ''='' \<notin> set name" and "list_all any_char value"
  shows "long_option_regex (''--'' @ name @ ''='' @ value) = Some (name, Some value)"
proof -
  have d: "dropWhile (\<lambda>c. c \<noteq> CHR ''='') (name @ CHR ''='' # value) = CHR ''='' # value"
    using assms(1) by (subst dropWhile_append2) auto
  have t: "takeWhile (\<lambda>c. c \<noteq> CHR ''='') (name @ CHR ''='' # value) = name"
    using assms(1) by (subst takeWhile_append2) auto
  show ?thesis using d t assms(2) by (simp add: long_option_regex_def)
qed

subsection \<open>The loops of run\<close>

lemma run_short_unrecognized:
  "select_short (m_options p) c = unrecognized \<Longrightarrow>
     run_short p (c # cs) rest =
       seq (call (call_unrec_option (CHR ''-'' # c # cs))
              (m_unrec_option_handler p (CHR ''-'' # c # cs)))
           (run_short p cs rest)"
  by simp

lemma run_short_not_allowed:
  "run_short p (c # cs) rest \<noteq> ([], Some (parse_error (''argument not allowed: --'' @ n)))"
  by (auto simp: throw_def execute0_def execute1_def
      split: selection.splits arg_type.splits list.splits)

lemma not_long_not_allowed:
  assumes "arg = ''--'' \<or> long_option_regex arg = None"
  shows "run p (arg # rest) \<noteq> ([], Some (parse_error (''argument not allowed: --'' @ n)))"
proof (cases "arg = ''--''")
  case True
  then show ?thesis using non_options_not_thrown [of p rest] by simp
next
  case False
  then have l: "long_option_regex arg = None" using assms by simp
  show ?thesis
  proof (cases "short_option_regex arg")
    case None
    then show ?thesis
      using False l non_options_not_thrown [of p "arg # rest"]
      by (simp del: non_options.simps)
  next
    case (Some cl)
    then obtain c cs where "cl = c # cs"
      by (auto simp: short_option_regex_def split: list.splits if_splits)
    then show ?thesis
      using False l Some run_short_not_allowed [of p c cs rest n]
      by (simp del: run_short.simps)
  qed
qed

subsection \<open>The help text\<close>

lemma getlines_Nil [simp]: "getlines [] = []"
  by (simp add: getlines.simps)

lemma getlines_Cons:
  "getlines (c # cs) =
     takeWhile (\<lambda>c. c \<noteq> CHR 0x0A) (c # cs) #
     (case dropWhile (\<lambda>c. c \<noteq> CHR 0x0A) (c # cs) of [] \<Rightarrow> [] | d # desc' \<Rightarrow> getlines desc')"
  by (subst getlines.simps) simp

lemma foldl_max_Max:
  "foldl (\<lambda>col help. max col (length (f help))) a helps =
     Max (set (a # map (\<lambda>help. length (f help)) helps))"
proof (induction helps arbitrary: a)
  case Nil
  then show ?case by simp
next
  case (Cons h helps)
  have "Max (insert (max a (length (f h))) (set (map (\<lambda>help. length (f help)) helps))) =
        Max (insert a (insert (length (f h)) (set (map (\<lambda>help. length (f help)) helps))))"
    by (cases "helps = []") (simp_all add: max.assoc)
  then show ?case using Cons.IH [of "max a (length (f h))"] by simp
qed

lemma col_width_foldl:
  "Suc (foldl (\<lambda>col help. max col (length (f help))) 0 helps) = col_width (map f helps)"
  by (simp add: foldl_max_Max col_width_def comp_def)

lemma put_lines_join:
  "put_lines w fstln lns =
     (if lns = [] then []
      else (if fstln then [] else CHR 0x0A # replicate w CHR '' '') @
           join (CHR 0x0A # replicate w CHR '' '') lns)"
proof (induction lns arbitrary: fstln)
  case Nil
  then show ?case by simp
next
  case (Cons ln lns)
  then show ?case by (cases lns) (simp_all add: setw_left_def)
qed

lemma put_helps_join:
  "put_helps col0 col1 fstopt helps =
     (if helps = [] then []
      else (if fstopt then [] else [CHR 0x0A]) @
           join [CHR 0x0A] (map (help_block col0 col1) helps))"
proof (induction helps arbitrary: fstopt)
  case Nil
  then show ?case by simp
next
  case (Cons h helps)
  have b: "setw_left col0 (fst h) @ setw_left col1 (fst (snd h)) @
           put_lines (col0 + col1) True (getlines (snd (snd h))) = help_block col0 col1 h"
    by (simp add: help_block_def pad_def setw_left_def put_lines_join)
  show ?case
  proof (cases helps)
    case Nil
    then show ?thesis using b by simp
  next
    case (Cons h' helps')
    then show ?thesis using b Cons.IH [of False] by simp
  qed
qed

lemma length_less_col_width: "s \<in> set strs \<Longrightarrow> length s < col_width strs"
proof -
  assume "s \<in> set strs"
  then have "length s \<le> Max (set (0 # map length strs))"
    by (intro Max_ge) auto
  then show ?thesis by (simp add: col_width_def)
qed

lemma length_pad: "length s \<le> w \<Longrightarrow> length (pad w s) = w"
  by (simp add: pad_def)

lemma pad_col_width:
  "x \<in> set xs \<Longrightarrow> length (pad (col_width (map f xs)) (f x)) = col_width (map f xs)"
  using length_less_col_width [of "f x" "map f xs"] by (intro length_pad) auto

section \<open>The claims\<close>

subsection \<open>C1\<close>

text \<open>
  C1. A token that \<^verbatim>\<open>run\<close> takes for a long option with the name \<open>name\<close> ends the run with
  \<^verbatim>\<open>ambiguous option: --name\<close>, no handler having been called for it, exactly when two
  or more options match the name exactly, or none matches it exactly and two or more
  match it partially. When exactly one option matches the name exactly, the search
  selects an option that matches exactly, however many options match partially.
\<close>

theorem long_option_ambiguity:
  assumes "arg \<noteq> ''--''" and "long_option_regex arg = Some (name, value)"
  shows "(run p (arg # rest) = ([], Some (parse_error (''ambiguous option: --'' @ name))))
           = (2 \<le> count_matches (m_options p) name match_exact \<or>
              count_matches (m_options p) name match_exact = 0 \<and>
              2 \<le> count_matches (m_options p) name match_partial)
         \<and> (count_matches (m_options p) name match_exact = 1 \<longrightarrow>
              (\<exists>i<length (m_options p). select_long (m_options p) name = selected i \<and>
                 match_long (m_options p ! i) name = match_exact))"
proof -
  have "(run p (arg # rest) = ([], Some (parse_error (''ambiguous option: --'' @ name))))
          = (select_long (m_options p) name = ambiguous)"
    using assms
    by (auto simp: throw_def execute0_def execute1_def
        split: selection.splits arg_type.splits option.splits list.splits)
  then show ?thesis
    using select_long_exact [of "m_options p" name] by (simp add: select_long_ambiguous)
qed

theorem long_option_ambiguity_witness:
  "''--ver'' \<noteq> ''--'' \<and> long_option_regex ''--ver'' = Some (''ver'', None) \<and>
   count_matches (m_options ic_parser) ''ver'' match_exact = 0 \<and>
   count_matches (m_options ic_parser) ''ver'' match_partial = 2 \<and>
   run ic_parser [''--ver'', ''x''] = ([], Some (parse_error ''ambiguous option: --ver'')) \<and>
   ''--lib'' \<noteq> ''--'' \<and> long_option_regex ''--lib'' = Some (''lib'', None) \<and>
   count_matches (m_options lib_parser) ''lib'' match_exact = 1 \<and>
   count_matches (m_options lib_parser) ''lib'' match_partial = 1 \<and>
   run lib_parser [''--lib'', ''x''] \<noteq> ([], Some (parse_error ''ambiguous option: --lib'')) \<and>
   (\<exists>i<length (m_options lib_parser).
      select_long (m_options lib_parser) ''lib'' = selected i \<and>
      match_long (m_options lib_parser ! i) ''lib'' = match_exact)"
proof -
  have r1: "''--ver'' \<noteq> ''--''" "long_option_regex ''--ver'' = Some (''ver'', None)"
    by (simp_all add: regex_defs)
  have c1: "count_matches (m_options ic_parser) ''ver'' match_exact = 0"
    "count_matches (m_options ic_parser) ''ver'' match_partial = 2"
    by (simp_all add: example_defs count_matches_def match_long_def)
  have r2: "''--lib'' \<noteq> ''--''" "long_option_regex ''--lib'' = Some (''lib'', None)"
    by (simp_all add: regex_defs)
  have c2: "count_matches (m_options lib_parser) ''lib'' match_exact = 1"
    "count_matches (m_options lib_parser) ''lib'' match_partial = 1"
    by (simp_all add: example_defs count_matches_def match_long_def)
  show ?thesis
    using long_option_ambiguity [OF r1, of ic_parser "[''x'']"]
      long_option_ambiguity [OF r2, of lib_parser "[''x'']"] r1 r2 c1 c2
    by (simp del: run.simps)
qed

subsection \<open>C2\<close>

text \<open>
  C2. The parser has an unrecognized-option handler that returns, and \<^verbatim>\<open>-v\<close> is declared
  and \<^verbatim>\<open>-x\<close> is not. For the token \<^verbatim>\<open>-xv\<close> the handler is called with \<^verbatim>\<open>-xv\<close>, and the
  inner loop then goes on with the next character: the handler of \<^verbatim>\<open>-v\<close> is called.
\<close>

theorem unrecognized_short_goes_on:
  "run ic_parser_lenient [''-xv''] = ([call_unrec_option ''-xv'', call_handler 0 None], None)"
  by (simp add: example_defs search_defs regex_defs execute0_def seq_def call_def)

subsection \<open>C3\<close>

text \<open>
  C3, as amended. \<^verbatim>\<open>match\<close> on a string answers exact when the string is a declared long
  name; otherwise partial exactly when the string is a proper prefix of a declared long
  name, the empty string being a proper prefix of every non-empty name; otherwise none.
  On a non-empty string it agrees with the matching that the specification words.
\<close>

theorem match_long_prefix:
  "match_long opt name =
     (if name \<in> set (m_long_names opt) then match_exact
      else if \<exists>l \<in> set (m_long_names opt). strict_prefix name l then match_partial
      else match_none) \<and>
   (name \<noteq> [] \<longrightarrow> match_long opt name = match_long_spec opt name)"
  by (simp add: match_long_def match_long_loop_eq match_long_spec_def)

theorem match_long_prefix_witness:
  "''verb'' \<noteq> [] \<and> match_long (ic_opts ! 0) ''verb'' = match_long_spec (ic_opts ! 0) ''verb'' \<and>
   match_long_spec (ic_opts ! 0) ''verb'' = match_partial \<and>
   match_long (ic_opts ! 0) ''verbose'' = match_exact \<and>
   match_long (ic_opts ! 0) ''version'' = match_none"
proof -
  have n: "''verb'' \<noteq> []" by simp
  have s: "match_long_spec (ic_opts ! 0) ''verb'' = match_partial"
    by (simp add: match_long_spec_def example_defs)
  have e: "match_long (ic_opts ! 0) ''verbose'' = match_exact"
    "match_long (ic_opts ! 0) ''version'' = match_none"
    by (simp_all add: match_long_def example_defs)
  have m: "m_long_names (ic_opts ! 0) = [''verbose'']" by (simp add: example_defs)
  show ?thesis
    using match_long_prefix [of "ic_opts ! 0" "''verb''"] n s e m by simp
qed

text \<open>
  C3 as stated fails at the empty string: the first option of the example declares the
  long name \<^verbatim>\<open>verbose\<close>, and \<^verbatim>\<open>match\<close> answers partial on the empty string, where the
  specification's matching answers none.
\<close>

theorem match_long_empty_counterexample:
  "match_long (ic_opts ! 0) [] = match_partial \<and> match_long_spec (ic_opts ! 0) [] = match_none"
  by (simp add: match_long_def match_long_spec_def example_defs)

subsection \<open>C4\<close>

text \<open>
  C4. The token \<^verbatim>\<open>--output=a\<close>, line feed, \<^verbatim>\<open>b\<close> has the form \<^verbatim>\<open>--name=value\<close>, and the search
  for its name selects the one option \<^verbatim>\<open>--output\<close>, whose argument is optional. The token
  matches neither regular expression: \<^verbatim>\<open>run\<close> hands it to the non-option handler and
  never calls the handler of \<^verbatim>\<open>--output\<close>. Without the line feed that handler is called
  once, with exactly the value.
\<close>

theorem long_option_value_line_feed:
  "select_long (m_options ic_parser) ''output'' = selected 2 \<and>
   m_arg_type (m_options ic_parser ! 2) = arg_optional \<and>
   run ic_parser [''--output=a'' @ [LF] @ ''b''] =
     ([call_non_option (''--output=a'' @ [LF] @ ''b'')], None) \<and>
   run ic_parser [''--output=ab''] = ([call_handler 2 (Some ''ab'')], None)"
  by (simp add: example_defs search_defs regex_defs execute1_def seq_def call_def)

text \<open>
  What holds of the code: for a token that \<^verbatim>\<open>run\<close> takes for a long option with the name
  \<open>name\<close> and the value \<open>value\<close> after \<^verbatim>\<open>=\<close>, the empty value included, when the search for
  the name selects one option and its argument is required or optional, \<^verbatim>\<open>run\<close> calls the
  handler of that option once, with exactly \<open>value\<close>, and goes on with the next token.
  Every token \<^verbatim>\<open>--name=value\<close> whose value holds no line terminator is such a token.
\<close>

lemma long_option_value:
  assumes "long_option_regex arg = Some (name, Some value)"
    and "select_long (m_options p) name = selected i"
    and "m_arg_type (m_options p ! i) = arg_required \<or>
         m_arg_type (m_options p ! i) = arg_optional"
  shows "run p (arg # rest) =
           seq (call (call_handler i (Some value)) (m_handler (m_options p ! i) (Some value)))
               (run p rest)"
  using assms long_not_dash [OF assms(1)] by (auto simp: execute1_def)

lemma long_option_value_example:
  "long_option_regex ''--output='' = Some (''output'', Some []) \<and>
   select_long (m_options ic_parser) ''output'' = selected 2 \<and>
   m_arg_type (m_options ic_parser ! 2) = arg_optional \<and>
   run ic_parser [''--output=''] = ([call_handler 2 (Some [])], None) \<and>
   long_option_regex ''--libd=/usr/lib'' = Some (''libd'', Some ''/usr/lib'') \<and>
   select_long (m_options ic_parser) ''libd'' = selected 4 \<and>
   m_arg_type (m_options ic_parser ! 4) = arg_required \<and>
   run ic_parser [''--libd=/usr/lib''] = ([call_handler 4 (Some ''/usr/lib'')], None)"
proof -
  have r1: "long_option_regex ''--output='' = Some (''output'', Some [])"
    by (simp add: regex_defs)
  have s1: "select_long (m_options ic_parser) ''output'' = selected 2"
    by (simp add: example_defs search_defs)
  have a1: "m_arg_type (m_options ic_parser ! 2) = arg_optional"
    by (simp add: example_defs)
  have h1: "m_handler (m_options ic_parser ! 2) (Some []) = None"
    by (simp add: example_defs)
  have r2: "long_option_regex ''--libd=/usr/lib'' = Some (''libd'', Some ''/usr/lib'')"
    by (simp add: regex_defs)
  have s2: "select_long (m_options ic_parser) ''libd'' = selected 4"
    by (simp add: example_defs search_defs)
  have a2: "m_arg_type (m_options ic_parser ! 4) = arg_required"
    by (simp add: example_defs)
  have h2: "m_handler (m_options ic_parser ! 4) (Some ''/usr/lib'') = None"
    by (simp add: example_defs)
  show ?thesis
    using long_option_value [OF r1 s1, of "[]"] long_option_value [OF r2 s2, of "[]"]
      r1 s1 a1 h1 r2 s2 a2 h2
    by (simp del: run.simps(2))
qed

lemma long_option_value_without_line_terminator:
  assumes "CHR ''='' \<notin> set name" and "list_all any_char value"
    and "select_long (m_options p) name = selected i"
    and "m_arg_type (m_options p ! i) = arg_required \<or>
         m_arg_type (m_options p ! i) = arg_optional"
  shows "run p ((''--'' @ name @ ''='' @ value) # rest) =
           seq (call (call_handler i (Some value)) (m_handler (m_options p ! i) (Some value)))
               (run p rest)"
  using long_option_value [OF long_option_regex_name_value [OF assms(1,2)] assms(3,4)] .

subsection \<open>C5\<close>

text \<open>
  C5. The token \<^verbatim>\<open>--verbose=1\<close>, line feed, attaches a value with \<^verbatim>\<open>=\<close> to the long name
  of the one option \<^verbatim>\<open>--verbose\<close>, which takes no argument. The token matches neither
  regular expression: \<^verbatim>\<open>run\<close> hands it to the non-option handler and throws nothing.
  Without the line feed \<^verbatim>\<open>run\<close> throws \<^verbatim>\<open>argument not allowed\<close>.
\<close>

theorem argument_not_allowed_line_feed:
  "select_long (m_options ic_parser) ''verbose'' = selected 0 \<and>
   m_arg_type (m_options ic_parser ! 0) = arg_none \<and>
   run ic_parser [''--verbose=1'' @ [LF]] =
     ([call_non_option (''--verbose=1'' @ [LF])], None) \<and>
   run ic_parser [''--verbose=1''] =
     ([], Some (parse_error ''argument not allowed: --verbose''))"
  by (simp add: example_defs search_defs regex_defs throw_def seq_def call_def)

text \<open>
  What holds of the code. For a token taken for a long option, \<^verbatim>\<open>run\<close> stops at it with
  \<^verbatim>\<open>argument not allowed\<close> exactly when the selected option takes no argument and a value
  follows \<^verbatim>\<open>=\<close>, and with \<^verbatim>\<open>argument required\<close> exactly when the selected option requires
  an argument, no value follows and no token is left. At a token that is not taken for a
  long option, \<^verbatim>\<open>run\<close> does not stop with \<^verbatim>\<open>argument not allowed\<close>. At a character of a
  cluster of short options, the inner loop stops with \<^verbatim>\<open>argument required\<close> exactly when
  the selected option requires an argument, no character of the cluster follows and no
  token is left. A token taken for a cluster is handed to the inner loop.
\<close>

lemma argument_errors:
  "(arg \<noteq> ''--'' \<and> long_option_regex arg = Some (name, value) \<longrightarrow>
      ((run p (arg # rest) = ([], Some (parse_error (''argument not allowed: --'' @ name))))
         = (\<exists>i. select_long (m_options p) name = selected i \<and>
                m_arg_type (m_options p ! i) = arg_none \<and> value \<noteq> None)) \<and>
      ((run p (arg # rest) = ([], Some (parse_error (''argument required: --'' @ name))))
         = (\<exists>i. select_long (m_options p) name = selected i \<and>
                m_arg_type (m_options p ! i) = arg_required \<and> value = None \<and> rest = [])))
   \<and> (arg = ''--'' \<or> long_option_regex arg = None \<longrightarrow>
        run p (arg # rest) \<noteq> ([], Some (parse_error (''argument not allowed: --'' @ name))))
   \<and> ((run_short p (c # cs) rest = ([], Some (parse_error (''argument required: -'' @ [c]))))
         = (\<exists>i. select_short (m_options p) c = selected i \<and>
                m_arg_type (m_options p ! i) = arg_required \<and> cs = [] \<and> rest = []))
   \<and> (arg \<noteq> ''--'' \<and> long_option_regex arg = None \<and> short_option_regex arg = Some cl \<longrightarrow>
        run p (arg # rest) = run_short p cl rest)"
proof -
  have "arg = ''--'' \<or> long_option_regex arg = None \<longrightarrow>
        run p (arg # rest) \<noteq> ([], Some (parse_error (''argument not allowed: --'' @ name)))"
    using not_long_not_allowed [of arg p rest name] by blast
  then show ?thesis
    by (auto simp: throw_def execute0_def execute1_def
        split: selection.splits arg_type.splits option.splits list.splits)
qed

lemma argument_errors_example:
  "long_option_regex ''--verbose=1'' = Some (''verbose'', Some ''1'') \<and>
   select_long (m_options ic_parser) ''verbose'' = selected 0 \<and>
   m_arg_type (m_options ic_parser ! 0) = arg_none \<and>
   run ic_parser [''--verbose=1'', ''x''] =
     ([], Some (parse_error ''argument not allowed: --verbose'')) \<and>
   long_option_regex ''--libdir'' = Some (''libdir'', None) \<and>
   select_long (m_options ic_parser) ''libdir'' = selected 4 \<and>
   m_arg_type (m_options ic_parser ! 4) = arg_required \<and>
   run ic_parser [''--libdir''] = ([], Some (parse_error ''argument required: --libdir'')) \<and>
   select_short (m_options ic_parser) CHR ''L'' = selected 4 \<and>
   run_short ic_parser ''L'' [] = ([], Some (parse_error ''argument required: -L'')) \<and>
   long_option_regex ''-vL'' = None \<and> short_option_regex ''-vL'' = Some ''vL'' \<and>
   run ic_parser [''-vL''] = run_short ic_parser ''vL'' [] \<and>
   run ic_parser [''-vL''] \<noteq> ([], Some (parse_error ''argument not allowed: --''))"
proof -
  have r1: "long_option_regex ''--verbose=1'' = Some (''verbose'', Some ''1'')"
    "''--verbose=1'' \<noteq> ''--''"
    by (simp_all add: regex_defs)
  have s1: "select_long (m_options ic_parser) ''verbose'' = selected 0"
    by (simp add: example_defs search_defs)
  have a1: "m_arg_type (m_options ic_parser ! 0) = arg_none"
    by (simp add: example_defs)
  have r2: "long_option_regex ''--libdir'' = Some (''libdir'', None)" "''--libdir'' \<noteq> ''--''"
    by (simp_all add: regex_defs)
  have s2: "select_long (m_options ic_parser) ''libdir'' = selected 4"
    by (simp add: example_defs search_defs)
  have a2: "m_arg_type (m_options ic_parser ! 4) = arg_required"
    by (simp add: example_defs)
  have s3: "select_short (m_options ic_parser) CHR ''L'' = selected 4"
    by (simp add: example_defs search_defs)
  have r4: "long_option_regex ''-vL'' = None" "short_option_regex ''-vL'' = Some ''vL''"
    "''-vL'' \<noteq> ''--''"
    by (simp_all add: regex_defs)
  show ?thesis
    using argument_errors [of "''--verbose=1''" "''verbose''" "Some ''1''" ic_parser "[''x'']"
        "CHR ''L''" "[]" "[]"]
      argument_errors [of "''--libdir''" "''libdir''" None ic_parser "[]" "CHR ''L''" "[]" "[]"]
      argument_errors [of "''-vL''" "[]" None ic_parser "[]" "CHR ''L''" "[]" "''vL''"]
      r1 s1 a1 r2 s2 a2 s3 r4
    by (auto simp del: run.simps run_short.simps)
qed

subsection \<open>C6\<close>

text \<open>
  C6. At the token \<^verbatim>\<open>--\<close>, in either mode, the calls that follow are calls of the
  non-option handler with the remaining tokens in their order, whatever the tokens look
  like; all of them are made, and nothing else happens, when the handler returns on each.
\<close>

theorem double_dash:
  "prefix (fst (run p (''--'' # rest))) (map call_non_option rest) \<and>
   ((\<forall>t\<in>set rest. m_non_option_handler p t = None) \<longrightarrow>
      run p (''--'' # rest) = (map call_non_option rest, None))"
  using non_options_prefix [of p rest] non_options_all [of rest p] by simp

theorem double_dash_witness:
  "run ic_parser [''--'', ''-v'', ''--'', ''x''] =
     ([call_non_option ''-v'', call_non_option ''--'', call_non_option ''x''], None) \<and>
   run ic_parser_posix [''--'', ''-v'', ''--'', ''x''] =
     ([call_non_option ''-v'', call_non_option ''--'', call_non_option ''x''], None)"
proof -
  have h: "\<forall>t\<in>set [''-v'', ''--'', ''x'']. m_non_option_handler ic_parser t = None"
    "\<forall>t\<in>set [''-v'', ''--'', ''x'']. m_non_option_handler ic_parser_posix t = None"
    by (simp_all add: example_defs)
  show ?thesis
    using double_dash [of ic_parser "[''-v'', ''--'', ''x'']"]
      double_dash [of ic_parser_posix "[''-v'', ''--'', ''x'']"] h
    by (simp del: run.simps)
qed

subsection \<open>C7\<close>

text \<open>
  C7. Exactly one option declares \<^verbatim>\<open>-a\<close> and it takes no argument, exactly one declares
  \<^verbatim>\<open>-b\<close> and it requires one, and the handler of \<^verbatim>\<open>-a\<close> returns. Then the single token
  \<^verbatim>\<open>-ab\<close> followed by \<open>VALUE\<close>, a non-empty string without line terminators such as
  \<^verbatim>\<open>VALUE\<close>, makes \<^verbatim>\<open>run\<close> call the handler of \<^verbatim>\<open>-a\<close> without argument and then the handler
  of \<^verbatim>\<open>-b\<close> with \<open>VALUE\<close>; the token \<^verbatim>\<open>-ab\<close> and one more token \<open>VALUE2\<close> make it call the
  handler of \<^verbatim>\<open>-a\<close> without argument and then the handler of \<^verbatim>\<open>-b\<close> with \<open>VALUE2\<close>.
\<close>

theorem clustered_short_options:
  assumes "ia < length (m_options p)"
    and "\<forall>k<length (m_options p). (CHR ''a'' \<in> set (m_short_names (m_options p ! k))) = (k = ia)"
    and "m_arg_type (m_options p ! ia) = arg_none"
    and "ib < length (m_options p)"
    and "\<forall>k<length (m_options p). (CHR ''b'' \<in> set (m_short_names (m_options p ! k))) = (k = ib)"
    and "m_arg_type (m_options p ! ib) = arg_required"
    and "m_handler (m_options p ! ia) None = None"
    and "VALUE \<noteq> []" and "list_all any_char VALUE"
  shows "run p [''-ab'' @ VALUE] =
           ([call_handler ia None, call_handler ib (Some VALUE)],
            m_handler (m_options p ! ib) (Some VALUE)) \<and>
         run p [''-ab'', VALUE2] =
           ([call_handler ia None, call_handler ib (Some VALUE2)],
            m_handler (m_options p ! ib) (Some VALUE2))"
proof -
  have sa: "select_short (m_options p) CHR ''a'' = selected ia"
    using assms(1,2) by (rule select_short_unique)
  have sb: "select_short (m_options p) CHR ''b'' = selected ib"
    using assms(4,5) by (rule select_short_unique)
  have r1: "long_option_regex (''-ab'' @ VALUE) = None"
    "short_option_regex (''-ab'' @ VALUE) = Some (''ab'' @ VALUE)"
    using assms(9) by (simp_all add: regex_defs)
  have r2: "long_option_regex ''-ab'' = None" "short_option_regex ''-ab'' = Some ''ab''"
    by (simp_all add: regex_defs)
  have "run p [''-ab'' @ VALUE] = run_short p (''ab'' @ VALUE) []"
    using r1 by (simp del: run_short.simps)
  moreover have "run_short p (''ab'' @ VALUE) [] =
      ([call_handler ia None, call_handler ib (Some VALUE)],
       m_handler (m_options p ! ib) (Some VALUE))"
    using sa sb assms(3,6,7,8)
    by (simp add: execute0_def execute1_def seq_call_returns del: run.simps(2))
  moreover have "run p [''-ab'', VALUE2] = run_short p ''ab'' [VALUE2]"
    using r2 by (simp del: run_short.simps)
  moreover have "run_short p ''ab'' [VALUE2] =
      ([call_handler ia None, call_handler ib (Some VALUE2)],
       m_handler (m_options p ! ib) (Some VALUE2))"
    using sa sb assms(3,6,7)
    by (simp add: execute0_def execute1_def seq_call_returns del: run.simps(2))
  ultimately show ?thesis by simp
qed

theorem clustered_short_options_witness:
  "run ab_parser [''-abVALUE''] = ([call_handler 0 None, call_handler 1 (Some ''VALUE'')], None) \<and>
   run ab_parser [''-ab'', ''VALUE2''] =
     ([call_handler 0 None, call_handler 1 (Some ''VALUE2'')], None)"
proof -
  have l: "length (m_options ab_parser) = 2" by (simp add: example_defs)
  have a: "\<forall>k<length (m_options ab_parser).
             (CHR ''a'' \<in> set (m_short_names (m_options ab_parser ! k))) = (k = 0)"
    by (simp add: example_defs less_Suc_eq numeral_2_eq_2)
  have b: "\<forall>k<length (m_options ab_parser).
             (CHR ''b'' \<in> set (m_short_names (m_options ab_parser ! k))) = (k = 1)"
    by (simp add: example_defs less_Suc_eq numeral_2_eq_2)
  have t: "m_arg_type (m_options ab_parser ! 0) = arg_none"
    "m_arg_type (m_options ab_parser ! 1) = arg_required"
    "m_handler (m_options ab_parser ! 0) None = None"
    "\<And>v. m_handler (m_options ab_parser ! 1) (Some v) = None"
    by (simp_all add: example_defs)
  have v: "''VALUE'' \<noteq> []" "list_all any_char ''VALUE''"
    by (simp_all add: regex_defs)
  show ?thesis
    using clustered_short_options [of 0 ab_parser 1 "''VALUE''" "''VALUE2''"] l a b t v
    by (simp del: run.simps)
qed

subsection \<open>C8\<close>

text \<open>
  C8. In posixly-correct mode, at a token that is not \<^verbatim>\<open>--\<close> and matches neither regular
  expression, the calls that follow are calls of the non-option handler with this token
  and the remaining ones in their order; all of them are made, and nothing else happens,
  when the handler returns on each.
\<close>

theorem posixly_correct_stop:
  assumes "m_flag p = posixly_correct" and "arg \<noteq> ''--''"
    and "long_option_regex arg = None" and "short_option_regex arg = None"
  shows "prefix (fst (run p (arg # rest))) (map call_non_option (arg # rest)) \<and>
         ((\<forall>t\<in>set (arg # rest). m_non_option_handler p t = None) \<longrightarrow>
            run p (arg # rest) = (map call_non_option (arg # rest), None))"
proof -
  have "run p (arg # rest) = non_options p (arg # rest)"
    using assms by simp
  then show ?thesis
    using non_options_prefix [of p "arg # rest"] non_options_all [of "arg # rest" p]
    by (simp del: non_options.simps run.simps)
qed

theorem posixly_correct_stop_witness:
  "m_flag ic_parser_posix = posixly_correct \<and> ''file1'' \<noteq> ''--'' \<and>
   long_option_regex ''file1'' = None \<and> short_option_regex ''file1'' = None \<and>
   run ic_parser_posix [''file1'', ''-v'', ''file2''] =
     ([call_non_option ''file1'', call_non_option ''-v'', call_non_option ''file2''], None)"
proof -
  have f: "m_flag ic_parser_posix = posixly_correct" by (simp add: example_defs)
  have r: "''file1'' \<noteq> ''--''" "long_option_regex ''file1'' = None"
    "short_option_regex ''file1'' = None"
    by (simp_all add: regex_defs)
  have h: "\<forall>t\<in>set [''file1'', ''-v'', ''file2'']. m_non_option_handler ic_parser_posix t = None"
    by (simp add: example_defs)
  show ?thesis
    using posixly_correct_stop [OF f r, of "[''-v'', ''file2'']"] f r h
    by (simp del: run.simps)
qed

subsection \<open>C9\<close>

text \<open>
  C9, as amended. \<^verbatim>\<open>get_help\<close> takes for \<open>col0\<close> one more than the width of the widest
  short field and for \<open>col1\<close> one more than the width of the widest long field; it writes
  the header and a line feed, then for each option the short field padded to exactly
  \<open>col0\<close> characters, the long field padded to exactly \<open>col1\<close> characters and the lines
  of the description, each later line behind a line feed and \<open>col0 + col1\<close> spaces; the
  block of an option is separated from the next by one line feed, so no blank line stands
  between them.
\<close>

theorem get_help_layout:
  "get_help p header = help_layout [CHR 0x0A] p header \<and>
   (\<forall>opt \<in> set (m_options p).
      length (pad (help_col0 p) (fst (option_get_help opt))) = help_col0 p \<and>
      length (pad (help_col1 p) (fst (snd (option_get_help opt)))) = help_col1 p)"
proof -
  have "get_help p header = help_layout [CHR 0x0A] p header"
    unfolding get_help_def help_layout_def help_col0_def help_col1_def Let_def col_width_foldl
    by (simp add: put_helps_join comp_def)
  moreover have "length (pad (help_col0 p) (fst (option_get_help opt))) = help_col0 p"
    if "opt \<in> set (m_options p)" for opt
    unfolding help_col0_def
    using that by (rule pad_col_width [of opt "m_options p" "\<lambda>opt. fst (option_get_help opt)"])
  moreover have "length (pad (help_col1 p) (fst (snd (option_get_help opt)))) = help_col1 p"
    if "opt \<in> set (m_options p)" for opt
    unfolding help_col1_def
    using that
    by (rule pad_col_width [of opt "m_options p" "\<lambda>opt. fst (snd (option_get_help opt))"])
  ultimately show ?thesis by blast
qed

theorem get_help_layout_witness:
  "help_col0 echo_parser = 5 \<and> help_col1 echo_parser = 10 \<and>
   get_help echo_parser ''usage'' =
     ''usage'' @ [LF] @
     ''-h   --help    show help'' @ [LF] @
     ''               and exit'' @ [LF] @
     ''-c N --count=N show output N time(s)''"
proof -
  have c: "help_col0 echo_parser = 5" "help_col1 echo_parser = 10"
    by (simp_all add: help_col0_def help_col1_def example_defs option_get_help_def
        col_width_def)
  have "help_layout [CHR 0x0A] echo_parser ''usage'' =
     ''usage'' @ [LF] @
     ''-h   --help    show help'' @ [LF] @
     ''               and exit'' @ [LF] @
     ''-c N --count=N show output N time(s)''"
    by (simp add: help_layout_def help_col0_def help_col1_def example_defs
        option_get_help_def col_width_def help_block_def pad_def getlines_Cons)
  then show ?thesis using get_help_layout [of echo_parser "''usage''"] c by simp
qed

text \<open>
  C9 as stated fails on the two options of the example: their blocks are separated by
  one line feed, so the text differs from the layout with a blank line between blocks.
\<close>

theorem get_help_blank_line_counterexample:
  "get_help echo_parser ''usage'' =
     ''usage'' @ [LF] @
     ''-h   --help    show help'' @ [LF] @
     ''               and exit'' @ [LF] @
     ''-c N --count=N show output N time(s)'' \<and>
   help_layout [LF, LF] echo_parser ''usage'' =
     ''usage'' @ [LF] @
     ''-h   --help    show help'' @ [LF] @
     ''               and exit'' @ [LF, LF] @
     ''-c N --count=N show output N time(s)'' \<and>
   get_help echo_parser ''usage'' \<noteq> help_layout [LF, LF] echo_parser ''usage''"
  by (simp add: get_help_def help_layout_def help_col0_def help_col1_def example_defs
      option_get_help_def col_width_def help_block_def pad_def setw_left_def getlines_Cons)

subsection \<open>C10\<close>

text \<open>
  C10. A token that begins with two hyphens and has a line feed behind its \<^verbatim>\<open>=\<close> matches
  neither regular expression: in standard mode it is handed to the non-option handler
  and the handler of \<^verbatim>\<open>--libdir\<close> is not called. The same value in a token of its own
  reaches that handler.
\<close>

theorem long_option_line_feed:
  "run ic_parser [''--libdir=a'' @ [LF] @ ''b''] =
     ([call_non_option (''--libdir=a'' @ [LF] @ ''b'')], None) \<and>
   run ic_parser [''--libdir'', ''a'' @ [LF] @ ''b''] =
     ([call_handler 4 (Some (''a'' @ [LF] @ ''b''))], None)"
  by (simp add: example_defs search_defs regex_defs execute1_def seq_def call_def)

end
